theory Spec2Isabelle
  imports Complex_Main "HOL-Library.Multiset"
begin

section \<open>The indicator calculators of \<^verbatim>\<open>src/lib/fetch-stock-prices.py\<close>\<close>

text \<open>
  The four calculators of the script (\<^verbatim>\<open>calculate_ema\<close>, and the closures
  \<^verbatim>\<open>calc_theta_from_flow\<close>, \<^verbatim>\<open>calc_z\<close>, \<^verbatim>\<open>calc_r\<close> with its helper
  \<^verbatim>\<open>rolling_z\<close> inside \<^verbatim>\<open>get_stock_data\<close>) are embedded as HOL functions.

  A pandas series of closing prices is a \<open>real list\<close> in time order. Python floats are
  IEEE binary64 numbers; unless said otherwise an operation on them is modelled by the exact
  operation on \<open>real\<close>, so the model has neither NaN, infinities nor signed zeros.
  The one place where the binary rounding of each operation is modelled as well is the EMA
  loop (section ``The EMA loop in binary64'').

  Whatever Python can raise is a value \<open>Inl e\<close> of the result type; a normal return is
  \<open>Inr v\<close>. Python's \<^verbatim>\<open>None\<close> is the \<open>None\<close> of an option type.
\<close>

subsection \<open>Outcomes outside normal return\<close>

text \<open>
  \<open>NaNResult\<close> is not an exception: pandas returns the float NaN as the median of an empty
  series, a value the real-valued model cannot hold. It is listed here so that the place
  where it would arise stays visible in the model.
\<close>

datatype py_error = ZeroDivisionError | IndexError | NaNResult

subsection \<open>Library operations the calculators call\<close>

text \<open>
  True division \<^verbatim>\<open>a / b\<close>. Python raises on a zero divisor (numpy scalars return an
  infinity or NaN with a warning instead; the model takes the stricter reading).
\<close>

definition truediv :: "real \<Rightarrow> real \<Rightarrow> py_error + real" where
  "truediv a b = (if b = 0 then Inl ZeroDivisionError else Inr (a / b))"

text \<open>Positional access \<^verbatim>\<open>series.iloc[i]\<close>; a negative position counts from the end.\<close>

definition iloc :: "'a list \<Rightarrow> int \<Rightarrow> py_error + 'a" where
  "iloc series i =
     (let pos = (if i < 0 then int (length series) + i else i)
      in if pos < 0 \<or> int (length series) \<le> pos then Inl IndexError
         else Inr (series ! nat pos))"

text \<open>The slices \<^verbatim>\<open>series.iloc[i:]\<close> and \<^verbatim>\<open>series.iloc[:i]\<close>; slices never raise.\<close>

definition iloc_from :: "'a list \<Rightarrow> int \<Rightarrow> 'a list" where
  "iloc_from series i =
     drop (nat (if i < 0 then int (length series) + i else i)) series"

definition iloc_upto :: "'a list \<Rightarrow> int \<Rightarrow> 'a list" where
  "iloc_upto series i =
     take (nat (if i < 0 then int (length series) + i else i)) series"

text \<open>
  \<^verbatim>\<open>Series.median()\<close>: the middle value of the sorted data, or the mean of the two
  middle values when the count is even (\<open>median_of\<close>); NaN for an empty series.
\<close>

definition median_of :: "real list \<Rightarrow> real" where
  "median_of series =
     (let s = sort series; n = length series
      in if odd n then s ! (n div 2)
         else (s ! (n div 2 - 1) + s ! (n div 2)) / 2)"

definition median :: "real list \<Rightarrow> py_error + real" where
  "median series = (if series = [] then Inl NaNResult else Inr (median_of series))"

text \<open>\<^verbatim>\<open>(series - m).abs()\<close>: the absolute deviation of every element from \<open>m\<close>.\<close>

definition abs_dev :: "real list \<Rightarrow> real \<Rightarrow> real list" where
  "abs_dev series m = map (\<lambda>x. \<bar>x - m\<bar>) series"

text \<open>
  The median absolute deviation of a series, as both \<^verbatim>\<open>calc_z\<close> and
  \<^verbatim>\<open>rolling_z\<close> compute it: the median of the absolute deviations from the median.
\<close>

definition mad_of :: "real list \<Rightarrow> real" where
  "mad_of series = median_of (abs_dev series (median_of series))"

text \<open>
  \<^verbatim>\<open>round(x, ndigits)\<close>: the nearest multiple of \<open>10\<^sup>-\<^sup>n\<close>, a tie going to the
  even multiple.
\<close>

definition round_half_even :: "real \<Rightarrow> int" where
  "round_half_even x =
     (let f = \<lfloor>x\<rfloor>; d = x - of_int f
      in if d < 1 / 2 then f
         else if 1 / 2 < d then f + 1
         else if even f then f else f + 1)"

definition py_round :: "real \<Rightarrow> nat \<Rightarrow> real" where
  "py_round x ndigits = of_int (round_half_even (x * 10 ^ ndigits)) / 10 ^ ndigits"

text \<open>
  \<^verbatim>\<open>math.atan2(y, x)\<close>: the angle of the point \<open>(x, y)\<close>, in \<open>(-\<pi>, \<pi>]\<close>, and
  \<^verbatim>\<open>math.degrees\<close>. Neither raises.
\<close>

definition atan2 :: "real \<Rightarrow> real \<Rightarrow> real" where
  "atan2 y x =
     (if 0 < x then arctan (y / x)
      else if x < 0 then (if 0 \<le> y then arctan (y / x) + pi else arctan (y / x) - pi)
      else if 0 < y then pi / 2
      else if y < 0 then - (pi / 2)
      else 0)"

definition degrees :: "real \<Rightarrow> real" where
  "degrees r = r * 180 / pi"

subsection \<open>\<^verbatim>\<open>calculate_ema\<close> (lines 16--24)\<close>

text \<open>The \<^verbatim>\<open>for\<close> loop of lines 22--23, with the running value as an argument.\<close>

fun ema_loop :: "real \<Rightarrow> real \<Rightarrow> real list \<Rightarrow> real" where
  "ema_loop multiplier ema [] = ema"
| "ema_loop multiplier ema (val # rest) =
     ema_loop multiplier ((val * multiplier) + (ema * (1 - multiplier))) rest"

definition calculate_ema :: "real list \<Rightarrow> int \<Rightarrow> py_error + real option" where
  "calculate_ema series period =
     (if int (length series) < period then Inr None
      else case truediv 2 (of_int (period + 1)) of
             Inl e \<Rightarrow> Inl e
           | Inr multiplier \<Rightarrow>
               (case iloc series 0 of
                  Inl e \<Rightarrow> Inl e
                | Inr ema \<Rightarrow> Inr (Some (ema_loop multiplier ema (iloc_from series 1)))))"

subsection \<open>\<^verbatim>\<open>calc_theta_from_flow\<close> (lines 63--72)\<close>

definition calc_theta_from_flow :: "real list \<Rightarrow> py_error + real" where
  "calc_theta_from_flow prices =
     (if length prices < 2 then Inr 0
      else case iloc prices (- 1) of
             Inl e \<Rightarrow> Inl e
           | Inr current \<Rightarrow>
               (case iloc prices (- 2) of
                  Inl e \<Rightarrow> Inl e
                | Inr prev \<Rightarrow>
                    (let delta = current - prev;
                         theta_rad = atan2 delta prev;
                         theta_deg = degrees theta_rad
                     in Inr (py_round theta_deg 2))))"

subsection \<open>\<^verbatim>\<open>calc_z\<close> (lines 75--83)\<close>

definition calc_z :: "real list \<Rightarrow> real \<Rightarrow> py_error + real" where
  "calc_z prices current =
     (if length prices < 21 then Inr 0
      else case median prices of
             Inl e \<Rightarrow> Inl e
           | Inr med \<Rightarrow>
               (case median (abs_dev prices med) of
                  Inl e \<Rightarrow> Inl e
                | Inr mad \<Rightarrow>
                    if mad = 0 then Inr 0
                    else (case truediv (current - med) mad of
                            Inl e \<Rightarrow> Inl e
                          | Inr z \<Rightarrow> Inr (py_round z 2))))"

subsection \<open>\<^verbatim>\<open>calc_r\<close> and \<^verbatim>\<open>rolling_z\<close> (lines 87--107)\<close>

definition rolling_z :: "real list \<Rightarrow> int \<Rightarrow> py_error + real option" where
  "rolling_z series lookback =
     (if int (length series) < lookback then Inr None
      else let recent = iloc_from series (- lookback)
           in case median recent of
                Inl e \<Rightarrow> Inl e
              | Inr med \<Rightarrow>
                  (case median (abs_dev recent med) of
                     Inl e \<Rightarrow> Inl e
                   | Inr mad \<Rightarrow>
                       if mad = 0 then Inr None
                       else (case iloc series (- 1) of
                               Inl e \<Rightarrow> Inl e
                             | Inr lst \<Rightarrow>
                                 (case truediv (lst - med) mad of
                                    Inl e \<Rightarrow> Inl e
                                  | Inr z \<Rightarrow> Inr (Some z)))))"

definition calc_r :: "real list \<Rightarrow> py_error + real" where
  "calc_r prices =
     (if length prices < 35 then Inr 1
      else case rolling_z prices 34 of
             Inl e \<Rightarrow> Inl e
           | Inr z_curr \<Rightarrow>
               (case (if 34 < length prices then rolling_z (iloc_upto prices (- 1)) 34
                      else Inr None) of
                  Inl e \<Rightarrow> Inl e
                | Inr z_prev \<Rightarrow>
                    (case z_curr of
                       None \<Rightarrow> Inr 1
                     | Some zc \<Rightarrow>
                         (case z_prev of
                            None \<Rightarrow> Inr 1
                          | Some zp \<Rightarrow>
                              if zp = 0 then Inr 1
                              else (case truediv zc zp of
                                      Inl e \<Rightarrow> Inl e
                                    | Inr r \<Rightarrow> Inr (py_round (max (- 5) (min 5 r)) 2))))))"

subsection \<open>The EMA loop in binary64\<close>

text \<open>
  Each Python float operation returns the exact result rounded to the nearest binary64
  number, a tie going to the even significand. \<open>fl64\<close> is that rounding for results in
  the finite range: a number of binary exponent \<open>k\<close> is rounded to a multiple of
  \<open>2\<^sup>k\<^sup>-\<^sup>5\<^sup>2\<close> (53 significant bits), the spacing never falling below that of the
  subnormal numbers. Overflow to an infinity is not modelled.

  \<open>binary_exponent n x\<close> is the \<open>k\<close> with \<open>2\<^sup>k \<le> x < 2\<^sup>k\<^sup>+\<^sup>1\<close> for a positive
  \<open>x\<close>, found in at most \<open>n\<close> halvings or doublings.
\<close>

fun binary_exponent :: "nat \<Rightarrow> real \<Rightarrow> int" where
  "binary_exponent 0 x = 0"
| "binary_exponent (Suc fuel) x =
     (if 2 \<le> x then binary_exponent fuel (x / 2) + 1
      else if x < 1 then binary_exponent fuel (x * 2) - 1
      else 0)"

definition fl64 :: "real \<Rightarrow> real" where
  "fl64 x =
     (if x = 0 then 0
      else let e = max (binary_exponent 1100 \<bar>x\<bar> - 52) (- 1074); ulp = 2 powi e
           in of_int (round_half_even (x / ulp)) * ulp)"

text \<open>
  \<^verbatim>\<open>calculate_ema\<close> once more, now with the rounding of every float operation written
  out: the division of line 20, and in line 23 the two products, the difference
  \<^verbatim>\<open>1 - multiplier\<close> and the sum.
\<close>

fun ema_loop_b64 :: "real \<Rightarrow> real \<Rightarrow> real list \<Rightarrow> real" where
  "ema_loop_b64 multiplier ema [] = ema"
| "ema_loop_b64 multiplier ema (val # rest) =
     ema_loop_b64 multiplier
       (fl64 (fl64 (val * multiplier) + fl64 (ema * fl64 (1 - multiplier)))) rest"

definition calculate_ema_b64 :: "real list \<Rightarrow> int \<Rightarrow> py_error + real option" where
  "calculate_ema_b64 series period =
     (if int (length series) < period then Inr None
      else case truediv 2 (of_int (period + 1)) of
             Inl e \<Rightarrow> Inl e
           | Inr ratio \<Rightarrow>
               (case iloc series 0 of
                  Inl e \<Rightarrow> Inl e
                | Inr ema \<Rightarrow>
                    Inr (Some (ema_loop_b64 (fl64 ratio) ema (iloc_from series 1)))))"

subsection \<open>Sample series\<close>

text \<open>
  Three series on which the calculators are evaluated below: 21 rising prices, 34 rising
  prices followed by a jump to 100, and 35 equal prices.
\<close>

definition series21 :: "real list" where
  "series21 = [1, 2, 3, 4, 5, 6, 7, 8, 9, 10, 11, 12, 13, 14, 15, 16, 17, 18, 19, 20, 21]"

definition series35 :: "real list" where
  "series35 = [1, 2, 3, 4, 5, 6, 7, 8, 9, 10, 11, 12, 13, 14, 15, 16, 17, 18, 19, 20,
               21, 22, 23, 24, 25, 26, 27, 28, 29, 30, 31, 32, 33, 34, 100]"


section \<open>Properties of the library operations\<close>

lemma truediv_nonzero: "b \<noteq> 0 \<Longrightarrow> truediv a b = Inr (a / b)"
  by (simp add: truediv_def)

lemma iloc_first: "series \<noteq> [] \<Longrightarrow> iloc series 0 = Inr (hd series)"
  by (cases series) (simp_all add: iloc_def)

lemma iloc_last: "series \<noteq> [] \<Longrightarrow> iloc series (- 1) = Inr (last series)"
proof -
  assume ne: "series \<noteq> []"
  then have "nat (int (length series) + - 1) = length series - 1"
    by (cases series) simp_all
  with ne show ?thesis
    by (simp add: iloc_def Let_def last_conv_nth)
qed

lemma iloc_last_but_one:
  "2 \<le> length series \<Longrightarrow> iloc series (- 2) = Inr (series ! (length series - 2))"
proof -
  assume len: "2 \<le> length series"
  then have "nat (int (length series) + - 2) = length series - 2"
    by linarith
  with len show ?thesis
    by (simp add: iloc_def Let_def)
qed

lemma iloc_from_1: "iloc_from series 1 = tl series"
  by (simp add: iloc_from_def drop_Suc)

lemma iloc_upto_minus_1: "iloc_upto series (- 1) = butlast series"
proof -
  have "nat (int (length series) + - 1) = length series - 1"
    by linarith
  then show ?thesis
    by (simp add: iloc_upto_def butlast_conv_take)
qed

subsection \<open>Rounding to decimals\<close>

lemma round_half_even_nearest: "\<bar>of_int (round_half_even x) - x\<bar> \<le> 1 / 2"
proof -
  have "of_int \<lfloor>x\<rfloor> \<le> x" and "x < of_int \<lfloor>x\<rfloor> + 1"
    by linarith+
  then show ?thesis
    by (auto simp add: round_half_even_def Let_def)
qed

lemma round_half_even_near:
  assumes "of_int k \<le> x" and "x < of_int k + 1 / 2"
  shows "round_half_even x = k"
proof -
  from assms have "\<lfloor>x\<rfloor> = k"
    by (intro floor_unique) simp_all
  with assms(2) show ?thesis
    by (simp add: round_half_even_def)
qed

lemma round_half_even_of_int: "round_half_even (of_int k) = k"
  by (rule round_half_even_near) simp_all

lemma round_half_even_ge:
  assumes "of_int a \<le> x"
  shows "a \<le> round_half_even x"
proof -
  from assms have "a \<le> \<lfloor>x\<rfloor>"
    by (simp add: le_floor_iff)
  then show ?thesis
    by (simp add: round_half_even_def Let_def)
qed

lemma round_half_even_le:
  assumes "x \<le> of_int b"
  shows "round_half_even x \<le> b"
proof (cases "x = of_int b")
  case True
  then show ?thesis
    by (simp add: round_half_even_of_int)
next
  case False
  with assms have "x < of_int b"
    by simp
  then have "\<lfloor>x\<rfloor> < b"
    by (simp add: floor_less_iff)
  then show ?thesis
    by (simp add: round_half_even_def Let_def)
qed

lemma py_round_of_int: "py_round (of_int k) n = of_int k"
proof -
  have "(of_int k :: real) * 10 ^ n = of_int (k * 10 ^ n)"
    by simp
  then have "round_half_even (of_int k * 10 ^ n) = k * 10 ^ n"
    by (simp only: round_half_even_of_int)
  then show ?thesis
    by (simp add: py_round_def)
qed

lemma py_round_bounds:
  assumes "of_int a \<le> x" and "x \<le> of_int b"
  shows "of_int a \<le> py_round x n \<and> py_round x n \<le> of_int b"
proof -
  have pos: "(0::real) < 10 ^ n"
    by simp
  from assms(1) have "of_int (a * 10 ^ n) \<le> x * 10 ^ n"
    by simp
  then have lo: "a * 10 ^ n \<le> round_half_even (x * 10 ^ n)"
    by (rule round_half_even_ge)
  from assms(2) have "x * 10 ^ n \<le> of_int (b * 10 ^ n)"
    by simp
  then have hi: "round_half_even (x * 10 ^ n) \<le> b * 10 ^ n"
    by (rule round_half_even_le)
  from lo have "(of_int (a * 10 ^ n) :: real) \<le> of_int (round_half_even (x * 10 ^ n))"
    by (simp only: of_int_le_iff)
  then have 1: "of_int a \<le> py_round x n"
    using pos by (simp add: py_round_def field_simps)
  from hi have "(of_int (round_half_even (x * 10 ^ n)) :: real) \<le> of_int (b * 10 ^ n)"
    by (simp only: of_int_le_iff)
  then have 2: "py_round x n \<le> of_int b"
    using pos by (simp add: py_round_def field_simps)
  from 1 2 show ?thesis ..
qed

subsection \<open>Angles\<close>

lemma atan2_range: "- pi < atan2 y x \<and> atan2 y x \<le> pi"
proof -
  have b: "- (pi / 2) < arctan (y / x)" "arctan (y / x) < pi / 2"
    by (rule arctan_lbound, rule arctan_ubound)
  consider "0 < x" | "x < 0" "0 \<le> y" | "x < 0" "y < 0" | "x = 0"
    by linarith
  then show ?thesis
  proof cases
    case 1
    then have "atan2 y x = arctan (y / x)"
      by (simp add: atan2_def)
    with b pi_gt_zero show ?thesis
      by (intro conjI; linarith)
  next
    case 2
    then have "y / x \<le> 0"
      by (simp add: divide_nonneg_neg)
    then have "arctan (y / x) \<le> 0"
      by simp
    moreover from 2 have "atan2 y x = arctan (y / x) + pi"
      by (simp add: atan2_def)
    ultimately show ?thesis
      using b by (intro conjI; linarith)
  next
    case 3
    then have "0 < y / x"
      by (simp add: divide_neg_neg)
    then have "0 < arctan (y / x)"
      by simp
    moreover from 3 have "atan2 y x = arctan (y / x) - pi"
      by (simp add: atan2_def)
    ultimately show ?thesis
      using b by (intro conjI; linarith)
  next
    case 4
    then have "atan2 y x = pi / 2 \<or> atan2 y x = - (pi / 2) \<or> atan2 y x = 0"
      by (simp add: atan2_def)
    then show ?thesis
      using pi_gt_zero by (elim disjE; intro conjI; linarith)
  qed
qed

lemma degrees_atan2_range: "- 180 < degrees (atan2 y x) \<and> degrees (atan2 y x) \<le> 180"
proof -
  from atan2_range [of y x] have "- pi < atan2 y x" and "atan2 y x \<le> pi"
    by simp_all
  then show ?thesis
    by (simp add: degrees_def field_simps)
qed

lemma arctan_le_arg:
  assumes "0 \<le> x"
  shows "arctan x \<le> x"
proof -
  have "0 - arctan 0 \<le> x - arctan x"
  proof (rule DERIV_nonneg_imp_nondecreasing [of 0 x "\<lambda>t. t - arctan t"])
    show "0 \<le> x" by (rule assms)
  next
    fix t :: real
    have "((\<lambda>t. t - arctan t) has_real_derivative 1 - inverse (1 + t\<^sup>2)) (at t)"
      by (intro derivative_intros DERIV_arctan)
    moreover have "0 \<le> 1 - inverse (1 + t\<^sup>2)"
      by (simp add: inverse_le_1_iff)
    ultimately show "\<exists>y. ((\<lambda>t. t - arctan t) has_real_derivative y) (at t) \<and> 0 \<le> y"
      by blast
  qed
  then show ?thesis
    by simp
qed

subsection \<open>Rounding to binary64\<close>

text \<open>
  With enough halvings or doublings allowed, \<open>binary_exponent\<close> is the binary exponent;
  \<open>fl64 x\<close> is then within half a unit in the last place of \<open>x\<close>. The two values are
  the floats Python prints as \<^verbatim>\<open>0.3333333333333333\<close> and \<^verbatim>\<open>0.1\<close>.
\<close>

lemma binary_exponent_bounds:
  assumes "1 \<le> x * 2 ^ n" and "x < 2 ^ Suc n"
  shows "2 powi (binary_exponent n x) \<le> x \<and> x < 2 powi (binary_exponent n x + 1)"
  using assms
proof (induction n arbitrary: x)
  case 0
  then show ?case
    by simp
next
  case (Suc n)
  have up: "(2::real) powi (k + 1) = 2 powi k * 2" for k
    by (rule power_int_add_1) simp
  consider "2 \<le> x" | "x < 1" | "1 \<le> x" "x < 2"
    by linarith
  then show ?case
  proof cases
    case 1
    define k where "k = binary_exponent n (x / 2)"
    from 1 have e: "binary_exponent (Suc n) x = k + 1"
      by (simp add: k_def)
    have "(1::real) \<le> 2 ^ n"
      by simp
    with 1 have "1 * 1 \<le> (x / 2) * 2 ^ n"
      by (intro mult_mono) simp_all
    then have lo: "1 \<le> (x / 2) * 2 ^ n"
      by simp
    from Suc.prems(2) have hi: "x / 2 < 2 ^ Suc n"
      by simp
    from Suc.IH [OF lo hi] have "2 powi k \<le> x / 2" and "x / 2 < 2 powi k * 2"
      by (simp_all only: k_def up)
    then have "2 powi k * 2 \<le> x" and "x < 2 powi k * 2 * 2"
      by linarith+
    then show ?thesis
      by (simp only: e up)
  next
    case 2
    define k where "k = binary_exponent n (x * 2)"
    from 2 have e: "binary_exponent (Suc n) x = k - 1"
      by (simp add: k_def)
    from Suc.prems(1) have lo: "1 \<le> (x * 2) * 2 ^ n"
      by (simp add: mult.assoc)
    have "(2::real) \<le> 2 ^ Suc n"
      by simp
    with 2 have hi: "x * 2 < 2 ^ Suc n"
      by linarith
    have k: "2 powi k = 2 powi (k - 1) * (2::real)"
      using up [of "k - 1"] by simp
    from Suc.IH [OF lo hi] have "2 powi k \<le> x * 2" and "x * 2 < 2 powi k * 2"
      by (simp_all only: k_def up)
    with k have "2 powi (k - 1) \<le> x" and "x < 2 powi (k - 1) * 2"
      by linarith+
    then show ?thesis
      by (simp only: e up)
  next
    case 3
    then show ?thesis
      by simp
  qed
qed

lemma fl64_nearest:
  assumes "ulp = 2 powi (max (binary_exponent 1100 \<bar>x\<bar> - 52) (- 1074))"
  shows "\<bar>fl64 x - x\<bar> \<le> ulp / 2"
proof (cases "x = 0")
  case True
  with assms show ?thesis
    by (simp add: fl64_def)
next
  case False
  have pos: "0 < ulp"
    by (simp add: assms)
  have "\<bar>of_int (round_half_even (x / ulp)) - x / ulp\<bar> \<le> 1 / 2"
    by (rule round_half_even_nearest)
  then have "\<bar>of_int (round_half_even (x / ulp)) - x / ulp\<bar> * ulp \<le> 1 / 2 * ulp"
    using pos by (intro mult_right_mono) simp_all
  moreover have "\<bar>of_int (round_half_even (x / ulp)) - x / ulp\<bar> * ulp
      = \<bar>of_int (round_half_even (x / ulp)) * ulp - x\<bar>"
  proof -
    have "(of_int (round_half_even (x / ulp)) - x / ulp) * ulp
        = of_int (round_half_even (x / ulp)) * ulp - x"
      using pos by (simp add: left_diff_distrib)
    moreover have "\<bar>ulp\<bar> = ulp"
      using pos by simp
    ultimately show ?thesis
      by (metis abs_mult)
  qed
  moreover from False have "fl64 x = of_int (round_half_even (x / ulp)) * ulp"
    by (simp add: fl64_def Let_def assms)
  ultimately show ?thesis
    by simp
qed

lemma fl64_samples:
  "fl64 (1 / 3) = 6004799503160661 / 18014398509481984
   \<and> fl64 (1 / 10) = 3602879701896397 / 36028797018963968"
  by code_simp

subsection \<open>Medians\<close>

lemma abs_dev_empty_iff: "abs_dev series m = [] \<longleftrightarrow> series = []"
  by (simp add: abs_dev_def)

lemma median_nonempty: "series \<noteq> [] \<Longrightarrow> median series = Inr (median_of series)"
  by (simp add: median_def)

lemma sort_mset_cong:
  fixes xs ys :: "real list"
  assumes "mset xs = mset ys"
  shows "sort xs = sort ys"
proof (rule properties_for_sort)
  from assms show "mset (sort ys) = mset xs"
    by simp
  show "sorted (sort ys)"
    by simp
qed

lemma median_of_mset_cong:
  assumes "mset xs = mset ys"
  shows "median_of xs = median_of ys"
proof -
  from assms have "length xs = length ys"
    by (rule mset_eq_length)
  moreover from assms have "sort xs = sort ys"
    by (rule sort_mset_cong)
  ultimately show ?thesis
    by (simp add: median_of_def)
qed

lemma mad_of_mset_cong:
  assumes "mset xs = mset ys"
  shows "mad_of xs = mad_of ys"
proof -
  from assms have m: "median_of xs = median_of ys"
    by (rule median_of_mset_cong)
  from assms have "mset (abs_dev xs (median_of ys)) = mset (abs_dev ys (median_of ys))"
    by (simp add: abs_dev_def)
  then have "median_of (abs_dev xs (median_of ys)) = median_of (abs_dev ys (median_of ys))"
    by (rule median_of_mset_cong)
  with m show ?thesis
    by (simp add: mad_of_def)
qed

subsection \<open>The sample series\<close>

lemma length_series21: "length series21 = 21"
  by (simp add: series21_def)

lemma median_of_series21: "median_of series21 = 11"
  by (simp add: series21_def median_of_def)

lemma mad_of_series21: "mad_of series21 = 5"
  by (simp add: mad_of_def median_of_series21) (simp add: series21_def abs_dev_def median_of_def)






section \<open>The EMA calculator\<close>

lemma ema_loop_foldl:
  "ema_loop m ema vals = foldl (\<lambda>avg v. v * m + avg * (1 - m)) ema vals"
  by (induction vals arbitrary: ema) simp_all

lemma ema_loop_b64_foldl:
  "ema_loop_b64 m ema vals =
     foldl (\<lambda>avg v. fl64 (fl64 (v * m) + fl64 (avg * fl64 (1 - m)))) ema vals"
  by (induction vals arbitrary: ema) simp_all


lemma calculate_ema_short:
  "int (length series) < period \<Longrightarrow> calculate_ema series period = Inr None"
  by (simp add: calculate_ema_def)

lemma calculate_ema_b64_short:
  "int (length series) < period \<Longrightarrow> calculate_ema_b64 series period = Inr None"
  by (simp add: calculate_ema_b64_def)

lemma calculate_ema_long:
  assumes "0 < period" and "period \<le> int (length series)"
  shows "calculate_ema series period =
           Inr (Some (ema_loop (2 / (of_int period + 1)) (hd series) (tl series)))"
proof -
  from assms have ne: "series \<noteq> []"
    by auto
  from assms(1) have "(of_int (period + 1) :: real) \<noteq> 0"
    by simp
  then have "truediv 2 (of_int (period + 1)) = Inr (2 / (of_int period + 1))"
    by (simp add: truediv_def)
  with assms(2) ne show ?thesis
    by (simp add: calculate_ema_def iloc_first iloc_from_1)
qed

lemma calculate_ema_b64_long:
  assumes "0 < period" and "period \<le> int (length series)"
  shows "calculate_ema_b64 series period =
           Inr (Some (ema_loop_b64 (fl64 (2 / (of_int period + 1))) (hd series) (tl series)))"
proof -
  from assms have ne: "series \<noteq> []"
    by auto
  from assms(1) have "(of_int (period + 1) :: real) \<noteq> 0"
    by simp
  then have "truediv 2 (of_int (period + 1)) = Inr (2 / (of_int period + 1))"
    by (simp add: truediv_def)
  with assms(2) ne show ?thesis
    by (simp add: calculate_ema_b64_def iloc_first iloc_from_1)
qed

lemma calculate_ema_example:
  "calculate_ema [100, 101, 99, 105, 102] 3 = Inr (Some 102.1875)"
  by (simp add: calculate_ema_def truediv_def iloc_def iloc_from_def)

lemma calculate_ema_b64_example:
  "calculate_ema_b64 [100, 101, 99, 105, 102] 3 = Inr (Some 102.1875)"
  by code_simp

text \<open>
  C1. For a positive period, \<^verbatim>\<open>calculate_ema\<close> returns \<^verbatim>\<open>None\<close> when the series has
  fewer elements than the period. Otherwise it returns the value of the accumulator that
  starts at the first element of the whole series and is updated, for every later element
  \<open>v\<close> in order, to \<open>v * (2 / (p + 1)) + avg * (1 - 2 / (p + 1))\<close>; the result is not
  rounded. On \<open>[100, 101, 99, 105, 102]\<close> with period 3 the result is \<open>102.1875\<close>.
  The same holds of the binary64 reading, where each operation of the update rounds its
  result; the worked example is exact there too.
\<close>

theorem calculate_ema_spec:
  assumes "0 < period"
  shows "calculate_ema series period =
           Inr (if int (length series) < period then None
                else Some (foldl (\<lambda>avg v. v * (2 / (of_int period + 1))
                                          + avg * (1 - 2 / (of_int period + 1)))
                             (hd series) (tl series)))
         \<and> calculate_ema [100, 101, 99, 105, 102] 3 = Inr (Some 102.1875)
         \<and> calculate_ema_b64 series period =
           Inr (if int (length series) < period then None
                else Some (foldl (\<lambda>avg v. fl64 (fl64 (v * fl64 (2 / (of_int period + 1)))
                                          + fl64 (avg * fl64 (1 - fl64 (2 / (of_int period + 1))))))
                             (hd series) (tl series)))
         \<and> calculate_ema_b64 [100, 101, 99, 105, 102] 3 = Inr (Some 102.1875)"
proof -
  have exact: "calculate_ema series period =
           Inr (if int (length series) < period then None
                else Some (foldl (\<lambda>avg v. v * (2 / (of_int period + 1))
                                          + avg * (1 - 2 / (of_int period + 1)))
                             (hd series) (tl series)))"
    using assms
    by (simp add: calculate_ema_short calculate_ema_long ema_loop_foldl)
  have rounded: "calculate_ema_b64 series period =
           Inr (if int (length series) < period then None
                else Some (foldl (\<lambda>avg v. fl64 (fl64 (v * fl64 (2 / (of_int period + 1)))
                                          + fl64 (avg * fl64 (1 - fl64 (2 / (of_int period + 1))))))
                             (hd series) (tl series)))"
    using assms
    by (simp add: calculate_ema_b64_short calculate_ema_b64_long ema_loop_b64_foldl)
  from exact rounded calculate_ema_example calculate_ema_b64_example
  show ?thesis
    by blast
qed

theorem calculate_ema_spec_witness:
  "(0::int) < 2
   \<and> calculate_ema [4, 8] 2 = Inr (Some (20 / 3))
   \<and> calculate_ema [4, 8] 3 = Inr None"
  using calculate_ema_spec [of 2 "[4, 8]"] calculate_ema_spec [of 3 "[4, 8]"]
  by simp




section \<open>The theta calculator\<close>

lemma calc_theta_from_flow_long:
  assumes "2 \<le> length prices"
  shows "calc_theta_from_flow prices =
           Inr (py_round (degrees (atan2 (last prices - prices ! (length prices - 2))
                                         (prices ! (length prices - 2)))) 2)"
proof -
  from assms have "prices \<noteq> []"
    by auto
  with assms show ?thesis
    by (simp add: calc_theta_from_flow_def iloc_last iloc_last_but_one)
qed

lemma calc_theta_from_flow_pair:
  "calc_theta_from_flow [a, b] = Inr (py_round (degrees (atan2 (b - a) a)) 2)"
  by (simp add: calc_theta_from_flow_long)

text \<open>
  C5 (as amended). For every positive \<open>x\<close> the theta of the two-element series
  \<open>[x, x]\<close> is 0. For a negative \<open>x\<close> it is 180: the price change is 0 and the
  price level is negative, and \<open>atan2 0 x\<close> is \<open>\<pi>\<close> there.
\<close>

theorem theta_equal_pair:
  "(0 < x \<longrightarrow> calc_theta_from_flow [x, x] = Inr 0)
   \<and> (x < 0 \<longrightarrow> calc_theta_from_flow [x, x] = Inr 180)"
proof -
  have r0: "py_round 0 2 = 0"
    using py_round_of_int [of 0 2] by simp
  have r180: "py_round 180 2 = 180"
    using py_round_of_int [of 180 2] by simp
  show ?thesis
    by (simp add: calc_theta_from_flow_pair atan2_def degrees_def r0 r180)
qed

theorem theta_equal_pair_witness:
  "(0::real) < 2 \<and> calc_theta_from_flow [2, 2] = Inr 0
   \<and> (- 2 :: real) < 0 \<and> calc_theta_from_flow [- 2, - 2] = Inr 180"
  using theta_equal_pair [of 2] theta_equal_pair [of "- 2"]
  by simp

text \<open>
  C5 as stated, for every nonzero \<open>x\<close>, fails at \<open>x = -1\<close>: the result is 180, not 0.
\<close>

theorem theta_equal_negative_pair_counterexample:
  "(- 1 :: real) \<noteq> 0 \<and> calc_theta_from_flow [- 1, - 1] = Inr 180"
proof -
  have r180: "py_round 180 2 = 180"
    using py_round_of_int [of 180 2] by simp
  show ?thesis
    by (simp add: calc_theta_from_flow_pair atan2_def degrees_def r180)
qed




text \<open>
  C8 (as amended). For every series theta is a value in the closed interval from -180 to
  180. The lower end is attained: an angle just above -180 degrees is rounded, to two
  decimals, to -180.
\<close>

theorem theta_range:
  "\<exists>t. calc_theta_from_flow prices = Inr t \<and> - 180 \<le> t \<and> t \<le> 180"
proof (cases "length prices < 2")
  case True
  then show ?thesis
    by (simp add: calc_theta_from_flow_def)
next
  case False
  then have len: "2 \<le> length prices"
    by simp
  let ?d = "degrees (atan2 (last prices - prices ! (length prices - 2))
                           (prices ! (length prices - 2)))"
  from degrees_atan2_range have "of_int (- 180) \<le> ?d" and "?d \<le> of_int 180"
    by (simp_all add: less_imp_le)
  then have "of_int (- 180) \<le> py_round ?d 2 \<and> py_round ?d 2 \<le> of_int 180"
    by (rule py_round_bounds)
  then show ?thesis
    by (simp add: calc_theta_from_flow_long [OF len])
qed

theorem theta_range_witness:
  "\<exists>t. calc_theta_from_flow [105, 102] = Inr t \<and> - 180 \<le> t \<and> t \<le> 180"
  using theta_range [of "[105, 102]"] .

text \<open>
  C8 as stated, with -180 excluded, fails on the series \<open>[-1, -1.00001]\<close>: the angle is
  \<open>arctan 0.00001 - \<pi>\<close>, less than 0.0006 degrees above -180, and theta is -180.
\<close>

theorem theta_minus_180_counterexample:
  "calc_theta_from_flow [- 1, - 1.00001] = Inr (- 180)"
proof -
  let ?a = "arctan (1 / 100000) * 18000 / pi"
  have "arctan (1 / 100000) \<le> 1 / 100000"
    by (rule arctan_le_arg) simp
  moreover have "0 < arctan (1 / 100000 :: real)"
    by simp
  ultimately have a: "0 \<le> ?a" "?a < 1 / 2"
    using pi_ge_two by (simp_all add: field_simps)
  have deg: "degrees (atan2 (- 1.00001 - - 1) (- 1)) * 10 ^ 2 = of_int (- 18000) + ?a"
    by (simp add: atan2_def degrees_def field_simps)
  have "round_half_even (of_int (- 18000) + ?a) = - 18000"
  proof (rule round_half_even_near)
    from a(1) show "of_int (- 18000) \<le> of_int (- 18000) + ?a"
      by linarith
    from a(2) show "of_int (- 18000) + ?a < of_int (- 18000) + 1 / 2"
      by linarith
  qed
  with deg have "py_round (degrees (atan2 (- 1.00001 - - 1) (- 1))) 2 = - 180"
    by (simp add: py_round_def)
  then show ?thesis
    by (simp add: calc_theta_from_flow_pair)
qed

section \<open>The z-score calculator\<close>

lemma calc_z_short: "length prices < 21 \<Longrightarrow> calc_z prices current = Inr 0"
  by (simp add: calc_z_def)

lemma calc_z_long:
  assumes "21 \<le> length prices"
  shows "calc_z prices current =
           Inr (if mad_of prices = 0 then 0
                else py_round ((current - median_of prices) / mad_of prices) 2)"
proof -
  from assms have ne: "prices \<noteq> []"
    by auto
  then have ne': "abs_dev prices (median_of prices) \<noteq> []"
    by (simp add: abs_dev_empty_iff)
  from assms have "\<not> length prices < 21"
    by simp
  then show ?thesis
    by (simp add: calc_z_def median_nonempty [OF ne] median_nonempty [OF ne']
        truediv_def mad_of_def)
qed

lemma calc_z_series21: "calc_z series21 30 = Inr 3.8"
proof -
  have "py_round ((30 - 11) / 5) 2 = 3.8"
    by (simp add: py_round_def round_half_even_def)
  then show ?thesis
    by (simp add: calc_z_long length_series21 median_of_series21 mad_of_series21)
qed



text \<open>
  C10. \<^verbatim>\<open>calc_z\<close> does not depend on the order of the series: two series with the
  same elements, each as often in one as in the other, have the same z-score for every
  \<open>current\<close>.
\<close>

theorem calc_z_permutation:
  assumes "mset prices' = mset prices"
  shows "calc_z prices' current = calc_z prices current"
proof -
  from assms have len: "length prices' = length prices"
    by (rule mset_eq_length)
  from assms have med: "median_of prices' = median_of prices"
    by (rule median_of_mset_cong)
  from assms have mad: "mad_of prices' = mad_of prices"
    by (rule mad_of_mset_cong)
  show ?thesis
  proof (cases "length prices < 21")
    case True
    with len show ?thesis
      by (simp add: calc_z_short)
  next
    case False
    with len have "21 \<le> length prices" "21 \<le> length prices'"
      by simp_all
    with med mad show ?thesis
      by (simp add: calc_z_long)
  qed
qed

theorem calc_z_permutation_witness:
  "mset (rev series21) = mset series21 \<and> calc_z (rev series21) 30 = calc_z series21 30
   \<and> calc_z series21 30 = Inr 3.8"
  using calc_z_permutation [of "rev series21" series21 30] calc_z_series21
  by simp


section \<open>The convergence ratio\<close>

lemma iloc_from_minus_34: "iloc_from series (- 34) = drop (length series - 34) series"
proof -
  have "nat (int (length series) + - 34) = length series - 34"
    by linarith
  then show ?thesis
    by (simp add: iloc_from_def)
qed

lemma rolling_z_34:
  assumes "34 \<le> length series"
  shows "rolling_z series 34 =
           Inr (if mad_of (drop (length series - 34) series) = 0 then None
                else Some ((last series - median_of (drop (length series - 34) series))
                           / mad_of (drop (length series - 34) series)))"
proof -
  let ?w = "drop (length series - 34) series"
  from assms have ne: "series \<noteq> []"
    by auto
  from assms have "length ?w = 34"
    by simp
  then have w: "?w \<noteq> []"
    by auto
  then have w': "abs_dev ?w (median_of ?w) \<noteq> []"
    by (simp add: abs_dev_empty_iff)
  from assms have "\<not> int (length series) < 34"
    by simp
  then show ?thesis
    by (simp add: rolling_z_def iloc_from_minus_34 median_nonempty [OF w]
        median_nonempty [OF w'] iloc_last [OF ne] truediv_def mad_of_def Let_def)
qed

lemma calc_r_short: "length prices < 35 \<Longrightarrow> calc_r prices = Inr 1"
  by (simp add: calc_r_def)

lemma calc_r_long:
  assumes "35 \<le> length prices"
  shows "calc_r prices =
           Inr (case rolling_z prices 34 of
                  Inr (Some zc) \<Rightarrow>
                    (case rolling_z (butlast prices) 34 of
                       Inr (Some zp) \<Rightarrow>
                         if zp = 0 then 1 else py_round (max (- 5) (min 5 (zc / zp))) 2
                     | _ \<Rightarrow> 1)
                | _ \<Rightarrow> 1)"
proof -
  from assms have a: "34 \<le> length prices" and b: "34 \<le> length (butlast prices)"
    by simp_all
  from assms have c: "\<not> length prices < 35" "34 < length prices"
    by simp_all
  show ?thesis
    by (simp add: calc_r_def c iloc_upto_minus_1 rolling_z_34 [OF a] rolling_z_34 [OF b]
        truediv_def)
qed

lemma clamp_round_bounds:
  "- 5 \<le> py_round (max (- 5) (min 5 r)) 2 \<and> py_round (max (- 5) (min 5 r)) 2 \<le> 5"
proof -
  have "of_int (- 5) \<le> max (- 5) (min 5 r)" and "max (- 5) (min 5 r) \<le> of_int 5"
    by simp_all
  then have "of_int (- 5) \<le> py_round (max (- 5) (min 5 r)) 2
             \<and> py_round (max (- 5) (min 5 r)) 2 \<le> of_int 5"
    by (rule py_round_bounds)
  then show ?thesis
    by simp
qed



text \<open>
  C3. For every series \<^verbatim>\<open>calc_r\<close> returns a value between -5 and 5, and for a series
  of fewer than 35 elements it returns 1.
\<close>

theorem calc_r_range:
  "(\<exists>r. calc_r prices = Inr r \<and> - 5 \<le> r \<and> r \<le> 5)
   \<and> (length prices < 35 \<longrightarrow> calc_r prices = Inr 1)"
proof (cases "length prices < 35")
  case True
  then show ?thesis
    by (simp add: calc_r_short)
next
  case False
  then have len: "35 \<le> length prices"
    by simp
  from clamp_round_bounds have "\<exists>r. calc_r prices = Inr r \<and> - 5 \<le> r \<and> r \<le> 5"
    by (simp add: calc_r_long [OF len] split: sum.split option.split)
  with False show ?thesis
    by simp
qed

theorem calc_r_range_witness:
  "(\<exists>r. calc_r series35 = Inr r \<and> - 5 \<le> r \<and> r \<le> 5)
   \<and> length [1, 2 :: real] < 35 \<and> calc_r [1, 2] = Inr 1"
  using calc_r_range [of series35] calc_r_range [of "[1, 2]"]
  by simp




section \<open>No calculator raises\<close>




end
